theory Spec2Isabelle
  imports Main "HOL-Library.Sublist"
begin

section \<open>The attendance store of the yoga attendance app (src/app.js)\<close>

text \<open>
  The development embeds the \<^verbatim>\<open>Store\<close>, \<^verbatim>\<open>StorageManager\<close> and the state-changing
  \<^verbatim>\<open>Handlers\<close> of \<^verbatim>\<open>src/app.js\<close>. Conventions of the embedding:
  \<^item> JavaScript strings are \<open>string\<close>, compared as byte strings; a string is falsy
    exactly when it is empty. \<^verbatim>\<open>trim\<close> and \<^verbatim>\<open>toLowerCase\<close> act on ASCII white space and
    ASCII letters.
  \<^item> A \<^verbatim>\<open>Map\<close> and a plain object both hold a partial function from keys to values. A
    cell group remembers which of the two it is (\<open>MapGroup\<close>, \<open>ObjGroup\<close>), as the
    source branches on \<^verbatim>\<open>instanceof Map\<close>. Reading a key of a plain cell group that has no
    own entry finds what the object inherits from \<^verbatim>\<open>Object.prototype\<close>, and writing the
    key \<^verbatim>\<open>__proto__\<close> goes to the inherited setter; a \<^verbatim>\<open>Map\<close> has neither effect. The
    date and batch keys of \<^verbatim>\<open>Store.attendance\<close> are ISO dates and batch ids, which are
    not names of inherited members.
  \<^item> A \<^verbatim>\<open>Set\<close> of strings is the list of its elements in insertion order.
  \<^item> \<^verbatim>\<open>EventBus.emit\<close> has no subscriber anywhere in the repository, so it changes
    nothing and is left out; DOM updates and toasts are left out as well.
  \<^item> \<^verbatim>\<open>localStorage.setItem\<close> is taken to succeed; \<^verbatim>\<open>JSON.stringify\<close> followed
    by \<^verbatim>\<open>JSON.parse\<close> is the identity on the attendance state, which holds strings
    only. The records items are never read back; each stands for the value that was
    serialized.
\<close>

subsection \<open>Constants of config.js\<close>

abbreviation LEAVE :: string where "LEAVE \<equiv> ''leave''"
abbreviation PRESENT :: string where "PRESENT \<equiv> ''present''"
abbreviation ABSENT :: string where "ABSENT \<equiv> ''absent''"

text \<open>The missing-data marker of the merge view, U+2014, as its UTF-8 bytes.\<close>

definition DASH :: string where
  "DASH = [CHR 0xE2, CHR 0x80, CHR 0x94]"

record batch =
  batch_id :: string
  batch_name :: string
  batch_time :: string

definition BATCHES :: "batch list" where
  "BATCHES =
    [\<lparr>batch_id = ''batch_01'', batch_name = ''Batch 01'', batch_time = ''5:30 AM''\<rparr>,
     \<lparr>batch_id = ''batch_02'', batch_name = ''Batch 02'', batch_time = ''6:00 AM''\<rparr>]"

text \<open>\<^verbatim>\<open>CONFIG.BATCHES.find(b => b.id === id)\<close>; \<open>None\<close> is \<^verbatim>\<open>undefined\<close>.\<close>

definition batchConfig :: "string \<Rightarrow> batch option" where
  "batchConfig bid = find (\<lambda>b. batch_id b = bid) BATCHES"

subsection \<open>Data\<close>

record student =
  sid :: string
  name :: string
  appNumber :: string
  active :: bool

datatype cellgroup = MapGroup "string \<rightharpoonup> string" | ObjGroup "string \<rightharpoonup> string"

text \<open>A value read out of a cell group: a string, or the member of \<^verbatim>\<open>Object.prototype\<close>
  that a plain object inherits under the given key. Such a member is a function or an
  object: it is truthy and equal to no string.\<close>

datatype jsval = Str string | Inherited string

text \<open>The keys under which every plain object inherits a member of \<^verbatim>\<open>Object.prototype\<close>:
  the properties of the prototype object in ECMAScript, with the legacy accessors.\<close>

definition objectPrototypeKeys :: "string list" where
  "objectPrototypeKeys =
    [''constructor'', ''hasOwnProperty'', ''isPrototypeOf'', ''propertyIsEnumerable'',
     ''toLocaleString'', ''toString'', ''valueOf'', ''__proto__'',
     ''__defineGetter__'', ''__defineSetter__'', ''__lookupGetter__'', ''__lookupSetter__'']"

type_synonym attendance = "string \<rightharpoonup> (string \<rightharpoonup> cellgroup)"

record computed =
  valid :: bool
  visible :: "student list"
  present :: "student list"
  absent :: "student list"
  leave :: "student list"

record store =
  studentMap :: "string \<rightharpoonup> student"
  studentOrder :: "string list"
  attendance :: attendance
  lockedBatches :: "string list"
  photoUrls :: "string \<rightharpoonup> string"
  currentDate :: string
  currentBatch :: string
  searchQuery :: string
  photoBase64 :: "string option"
  cache :: computed

text \<open>The parsed JSON document kept under \<^verbatim>\<open>CONFIG.STORAGE_KEYS.ATTENDANCE\<close>. The lock
  set may be an array of keys, the legacy nested object (in key order, with the
  truthiness of each leaf), or absent or of another type.\<close>

datatype savedBatches =
  SavedArray "string list"
  | SavedObject "(string \<times> (string \<times> bool) list) list"
  | SavedOther

record persisted =
  p_attendance :: "(string \<rightharpoonup> (string \<rightharpoonup> (string \<rightharpoonup> string))) option"
  p_savedBatches :: savedBatches
  p_photoUrls :: "(string \<rightharpoonup> string) option"

record attendanceRecord =
  r_date :: string
  r_batch :: string
  r_batchTime :: string
  r_studentId :: string
  r_studentName :: string
  r_appNumber :: string
  r_status :: jsval
  r_time :: string

record savedRecords =
  records :: "attendanceRecord list"
  savedAt :: string
  photoIncluded :: bool

text \<open>\<^verbatim>\<open>localStorage\<close>: the item of the attendance state, and the items
  \<^verbatim>\<open>yoga_records_<date>_<batch>\<close> by their key.\<close>

record localStorage =
  attendanceItem :: "persisted option"
  recordItems :: "string \<rightharpoonup> savedRecords"

record handlers =
  lastTapTime :: int
  lastTapStudentId :: "string option"
  singleTapTimer :: "(string \<times> string) option"
  popoverStudentId :: "string option"

record app =
  Store :: store
  Storage :: localStorage
  Handlers :: handlers
  API_URL :: string

subsection \<open>String helpers\<close>

text \<open>\<^verbatim>\<open>trim\<close> and \<^verbatim>\<open>toLowerCase\<close> on byte strings: white space and letters outside ASCII
  are left as they are, where JavaScript also strips and folds them. The two functions
  only shape the search query and the fields it is matched against; the facts about
  the loop of the computed view are proved for every query string.\<close>

definition isSpace :: "char \<Rightarrow> bool" where
  "isSpace c = (c \<in> set [CHR '' '', CHR 0x09, CHR 0x0A, CHR 0x0B, CHR 0x0C, CHR 0x0D])"

definition trim :: "string \<Rightarrow> string" where
  "trim s = rev (dropWhile isSpace (rev (dropWhile isSpace s)))"

definition toLowerChar :: "char \<Rightarrow> char" where
  "toLowerChar c =
    (let n = (of_char c :: nat) in if 65 \<le> n \<and> n \<le> 90 then char_of (n + 32) else c)"

definition toLowerCase :: "string \<Rightarrow> string" where
  "toLowerCase s = map toLowerChar s"

text \<open>\<^verbatim>\<open>s.includes(q)\<close>: \<open>q\<close> occurs in \<open>s\<close> as a contiguous substring.\<close>

fun str_includes :: "string \<Rightarrow> string \<Rightarrow> bool" where
  "str_includes [] q = (q = [])"
| "str_includes (c # cs) q = (prefix q (c # cs) \<or> str_includes cs q)"

text \<open>\<^verbatim>\<open>k.startsWith(p)\<close>\<close>

definition startsWith :: "string \<Rightarrow> string \<Rightarrow> bool" where
  "startsWith k p = prefix p k"

subsection \<open>Sets of strings in insertion order\<close>

definition set_add :: "string \<Rightarrow> string list \<Rightarrow> string list" where
  "set_add k xs = (if k \<in> set xs then xs else xs @ [k])"

definition set_has :: "string list \<Rightarrow> string \<Rightarrow> bool" where
  "set_has xs k = (k \<in> set xs)"

text \<open>\<^verbatim>\<open>new Set(array)\<close>\<close>

definition new_Set :: "string list \<Rightarrow> string list" where
  "new_Set arr = fold set_add arr []"

subsection \<open>Store\<close>

text \<open>\<^verbatim>\<open>batchData.get(key)\<close> on a \<^verbatim>\<open>Map\<close> and \<^verbatim>\<open>batchData[key]\<close> on a plain object; \<open>None\<close>
  is \<^verbatim>\<open>undefined\<close>. The plain object answers with its own entry if it has one, and
  otherwise with the inherited member if the key names one.\<close>

definition mapGet :: "(string \<rightharpoonup> string) \<Rightarrow> string \<Rightarrow> jsval option" where
  "mapGet m key = (case m key of None \<Rightarrow> None | Some s \<Rightarrow> Some (Str s))"

definition objGet :: "(string \<rightharpoonup> string) \<Rightarrow> string \<Rightarrow> jsval option" where
  "objGet m key =
    (case m key of
       Some s \<Rightarrow> Some (Str s)
     | None \<Rightarrow> if key \<in> set objectPrototypeKeys then Some (Inherited key) else None)"

text \<open>\<^verbatim>\<open>batchData[key] = status\<close> on a plain object: an assignment to \<^verbatim>\<open>__proto__\<close> without
  an own entry of that name calls the inherited setter, which ignores a string.\<close>

definition objSet :: "(string \<rightharpoonup> string) \<Rightarrow> string \<Rightarrow> string \<Rightarrow> (string \<rightharpoonup> string)" where
  "objSet m key status =
    (if key = ''__proto__'' \<and> m key = None then m else m(key \<mapsto> status))"

text \<open>\<^verbatim>\<open>v || CONFIG.STATUSES.LEAVE\<close> for a looked-up status.\<close>

definition orLeave :: "jsval option \<Rightarrow> jsval" where
  "orLeave v =
    (case v of
       None \<Rightarrow> Str LEAVE
     | Some (Str s) \<Rightarrow> if s = [] then Str LEAVE else Str s
     | Some (Inherited key) \<Rightarrow> Inherited key)"

text \<open>\<^verbatim>\<open>attendance[dateKey]?.[batchKey]\<close>\<close>

definition lookupGroup :: "attendance \<Rightarrow> string \<Rightarrow> string \<Rightarrow> cellgroup option" where
  "lookupGroup att dateKey batchKey =
    (case att dateKey of None \<Rightarrow> None | Some bm \<Rightarrow> bm batchKey)"

definition invalidateCache :: "store \<Rightarrow> store" where
  "invalidateCache st = st\<lparr>cache := (cache st)\<lparr>valid := False\<rparr>\<rparr>"

definition setStudents :: "student list \<Rightarrow> store \<Rightarrow> store" where
  "setStudents students st =
    invalidateCache
      (st\<lparr>studentMap := fold (\<lambda>s m. m(sid s \<mapsto> s)) students Map.empty,
          studentOrder := map sid students\<rparr>)"

definition initDateBatch :: "string \<Rightarrow> string \<Rightarrow> store \<Rightarrow> store" where
  "initDateBatch dateKey batchKey st =
    (let bm = (case attendance st dateKey of None \<Rightarrow> Map.empty | Some bm \<Rightarrow> bm);
         bm' = (case bm batchKey of
                  None \<Rightarrow>
                    bm(batchKey \<mapsto>
                      MapGroup (\<lambda>i. case studentMap st i of None \<Rightarrow> None | Some s \<Rightarrow> Some LEAVE))
                | Some g \<Rightarrow> bm)
     in st\<lparr>attendance := (attendance st)(dateKey \<mapsto> bm')\<rparr>)"

definition getStatus :: "store \<Rightarrow> string \<Rightarrow> jsval" where
  "getStatus st studentId =
    (case lookupGroup (attendance st) (currentDate st) (currentBatch st) of
       Some (MapGroup m) \<Rightarrow> orLeave (mapGet m studentId)
     | Some (ObjGroup m) \<Rightarrow> orLeave (objGet m studentId)
     | None \<Rightarrow> Str LEAVE)"

definition lockKey :: "string \<Rightarrow> string \<Rightarrow> string" where
  "lockKey dateKey batchKey = dateKey @ ''|'' @ batchKey"

definition isLocked :: "store \<Rightarrow> bool" where
  "isLocked st = set_has (lockedBatches st) (lockKey (currentDate st) (currentBatch st))"

definition isDateBatchLocked :: "store \<Rightarrow> string \<Rightarrow> string \<Rightarrow> bool" where
  "isDateBatchLocked st dateKey batchKey = set_has (lockedBatches st) (lockKey dateKey batchKey)"

definition getBatch1PresentSet :: "store \<Rightarrow> string set" where
  "getBatch1PresentSet st =
    (if currentBatch st \<noteq> ''batch_02'' then {}
     else case lookupGroup (attendance st) (currentDate st) ''batch_01'' of
            None \<Rightarrow> {}
          | Some (MapGroup m) \<Rightarrow> {i. m i = Some PRESENT}
          | Some (ObjGroup m) \<Rightarrow> {i. m i = Some PRESENT})"

text \<open>The loop of \<^verbatim>\<open>getComputed\<close> over \<^verbatim>\<open>studentOrder\<close>; the accumulator holds the four
  arrays, each \<^verbatim>\<open>push\<close> appends at the end.\<close>

fun computeLoop :: "store \<Rightarrow> string set \<Rightarrow> string \<Rightarrow> string list \<Rightarrow> computed \<Rightarrow> computed" where
  "computeLoop st batch1Present q [] acc = acc"
| "computeLoop st batch1Present q (i # ids) acc =
    (case studentMap st i of
       None \<Rightarrow> computeLoop st batch1Present q ids acc
     | Some s \<Rightarrow>
         if \<not> active s then computeLoop st batch1Present q ids acc
         else if batch1Present \<noteq> {} \<and> i \<in> batch1Present
           then computeLoop st batch1Present q ids acc
         else if q \<noteq> [] \<and> \<not> str_includes (toLowerCase (name s)) q
                 \<and> \<not> str_includes (toLowerCase (appNumber s)) q
                 \<and> \<not> str_includes (toLowerCase (sid s)) q
           then computeLoop st batch1Present q ids acc
         else
           (let acc1 = acc\<lparr>visible := visible acc @ [s]\<rparr>;
                status = getStatus st i
            in computeLoop st batch1Present q ids
                 (if status = Str PRESENT then acc1\<lparr>present := present acc1 @ [s]\<rparr>
                  else if status = Str ABSENT then acc1\<lparr>absent := absent acc1 @ [s]\<rparr>
                  else acc1\<lparr>leave := leave acc1 @ [s]\<rparr>)))"

text \<open>The body of \<^verbatim>\<open>getComputed\<close> below the cache test: the recomputation from scratch.\<close>

definition compute :: "store \<Rightarrow> computed" where
  "compute st =
    computeLoop st (getBatch1PresentSet st) (toLowerCase (trim (searchQuery st)))
      (studentOrder st)
      \<lparr>valid = True, visible = [], present = [], absent = [], leave = []\<rparr>"

definition getComputed :: "store \<Rightarrow> computed \<times> store" where
  "getComputed st =
    (if valid (cache st) then (cache st, st)
     else (let c = compute st in (c, st\<lparr>cache := c\<rparr>)))"

definition getFinalStatus :: "string \<Rightarrow> string \<Rightarrow> string" where
  "getFinalStatus b1 b2 =
    (if b1 = ''present'' \<or> b2 = ''present'' then ''present''
     else if b1 = ''absent'' \<or> b2 = ''absent'' then ''absent''
     else ''leave'')"

subsection \<open>StorageManager\<close>

definition groupEntries :: "cellgroup \<Rightarrow> (string \<rightharpoonup> string)" where
  "groupEntries g = (case g of MapGroup m \<Rightarrow> m | ObjGroup m \<Rightarrow> m)"

definition saveState :: "app \<Rightarrow> app" where
  "saveState w =
    (let st = Store w;
         attObj = (\<lambda>dateKey. case attendance st dateKey of
                     None \<Rightarrow> None
                   | Some bm \<Rightarrow>
                       Some (\<lambda>batchKey. case bm batchKey of
                               None \<Rightarrow> None
                             | Some (MapGroup m) \<Rightarrow> Some m
                             | Some (ObjGroup m) \<Rightarrow> Some m));
         data = \<lparr>p_attendance = Some attObj,
                 p_savedBatches = SavedArray (lockedBatches st),
                 p_photoUrls = Some (photoUrls st)\<rparr>
     in w\<lparr>Storage := (Storage w)\<lparr>attendanceItem := Some data\<rparr>\<rparr>)"

text \<open>The nested loops of the legacy migration: every truthy leaf adds its lock key.\<close>

definition migrateLocks :: "(string \<times> (string \<times> bool) list) list \<Rightarrow> string list" where
  "migrateLocks obj =
    fold (\<lambda>(dateKey, inner) acc.
            fold (\<lambda>(batchKey, v) acc'. if v then set_add (lockKey dateKey batchKey) acc' else acc')
              inner acc)
      obj []"

definition loadState :: "app \<Rightarrow> app" where
  "loadState w =
    (case attendanceItem (Storage w) of
       None \<Rightarrow> w
     | Some data \<Rightarrow>
         (let st = Store w;
              att = (case p_attendance data of
                       None \<Rightarrow> Map.empty
                     | Some a \<Rightarrow>
                         (\<lambda>dateKey. case a dateKey of
                            None \<Rightarrow> None
                          | Some bm \<Rightarrow>
                              Some (\<lambda>batchKey. case bm batchKey of
                                      None \<Rightarrow> None
                                    | Some m \<Rightarrow> Some (ObjGroup m))));
              locked = (case p_savedBatches data of
                          SavedArray arr \<Rightarrow> new_Set arr
                        | SavedObject obj \<Rightarrow> migrateLocks obj
                        | SavedOther \<Rightarrow> lockedBatches st);
              urls = (case p_photoUrls data of None \<Rightarrow> Map.empty | Some u \<Rightarrow> u)
          in w\<lparr>Store := st\<lparr>attendance := att, lockedBatches := locked, photoUrls := urls\<rparr>\<rparr>))"

definition saveRecords :: "attendanceRecord list \<Rightarrow> string \<Rightarrow> app \<Rightarrow> app" where
  "saveRecords recs now w =
    (let st = Store w;
         key = ''yoga_records_'' @ currentDate st @ ''_'' @ currentBatch st
     in w\<lparr>Storage := (Storage w)\<lparr>recordItems :=
            (recordItems (Storage w))(key \<mapsto>
              \<lparr>records = recs, savedAt = now,
               photoIncluded = (case photoBase64 st of None \<Rightarrow> False | Some p \<Rightarrow> p \<noteq> [])\<rparr>)\<rparr>\<rparr>)"

subsection \<open>Store methods that persist\<close>

definition setStatus :: "string \<Rightarrow> string \<Rightarrow> app \<Rightarrow> app" where
  "setStatus studentId status w =
    (let st = Store w;
         dateKey = currentDate st;
         batchKey = currentBatch st;
         bm = (case attendance st dateKey of None \<Rightarrow> Map.empty | Some bm \<Rightarrow> bm);
         batchData = (case bm batchKey of None \<Rightarrow> MapGroup Map.empty | Some g \<Rightarrow> g);
         batchData' = (case batchData of
                         MapGroup m \<Rightarrow> MapGroup (m(studentId \<mapsto> status))
                       | ObjGroup m \<Rightarrow> ObjGroup (objSet m studentId status));
         st' = invalidateCache
                 (st\<lparr>attendance := (attendance st)(dateKey \<mapsto> bm(batchKey \<mapsto> batchData'))\<rparr>)
     in saveState (w\<lparr>Store := st'\<rparr>))"

text \<open>\<^verbatim>\<open>lockCurrentBatch(photoUrl)\<close>; \<open>None\<close> is \<^verbatim>\<open>null\<close>, and an empty URL is falsy.\<close>

definition lockCurrentBatch :: "string option \<Rightarrow> app \<Rightarrow> app" where
  "lockCurrentBatch photoUrl w =
    (let st = Store w;
         key = lockKey (currentDate st) (currentBatch st);
         st1 = st\<lparr>lockedBatches := set_add key (lockedBatches st)\<rparr>;
         st2 = (case photoUrl of
                  None \<Rightarrow> st1
                | Some u \<Rightarrow> if u = [] then st1 else st1\<lparr>photoUrls := (photoUrls st1)(key \<mapsto> u)\<rparr>)
     in saveState (w\<lparr>Store := st2\<rparr>))"

subsection \<open>Handlers\<close>

text \<open>A handler either returns or throws a \<^verbatim>\<open>TypeError\<close>; both leave the application in
  the state reached so far.\<close>

datatype outcome = Returned app | Threw app

fun state_of :: "outcome \<Rightarrow> app" where
  "state_of (Returned w) = w"
| "state_of (Threw w) = w"

text \<open>\<^verbatim>\<open>Renderer.renderAll\<close>: it reads \<^verbatim>\<open>Store.getComputed()\<close>, which refreshes the cache,
  and then dereferences the configuration of the current batch, which throws when the
  batch is not configured. Its writes to the DOM are not part of the state.\<close>

definition renderAll :: "app \<Rightarrow> outcome" where
  "renderAll w =
    (let w' = w\<lparr>Store := snd (getComputed (Store w))\<rparr>
     in if batchConfig (currentBatch (Store w')) = None then Threw w' else Returned w')"

text \<open>\<^verbatim>\<open>onStudentClick\<close>: \<open>clicked\<close> is the student id and the status of the card that was hit
  (\<open>None\<close> when the click hit no card), \<open>now\<close> is \<^verbatim>\<open>Date.now()\<close>. The single tap is
  deferred: its closure is kept in \<open>singleTapTimer\<close> until \<open>singleTapFire\<close> runs it.\<close>

definition onStudentClick :: "(string \<times> string) option \<Rightarrow> int \<Rightarrow> app \<Rightarrow> outcome" where
  "onStudentClick clicked now w =
    (case clicked of
       None \<Rightarrow> Returned w
     | Some (studentId, currentStatus) \<Rightarrow>
         if isLocked (Store w) then Returned w
         else if lastTapStudentId (Handlers w) = Some studentId
                 \<and> now - lastTapTime (Handlers w) < 250
           then
             (let w1 = w\<lparr>Handlers := (Handlers w)\<lparr>singleTapTimer := None,
                          lastTapStudentId := None, lastTapTime := 0\<rparr>\<rparr>
              in if currentStatus = ABSENT then renderAll (setStatus studentId LEAVE w1)
                 else renderAll (setStatus studentId ABSENT w1))
         else
           Returned (w\<lparr>Handlers := (Handlers w)\<lparr>lastTapStudentId := Some studentId,
                        lastTapTime := now,
                        singleTapTimer := Some (studentId, currentStatus)\<rparr>\<rparr>))"

text \<open>The callback of the single-tap timer, 250 ms after the click that armed it.\<close>

definition singleTapFire :: "app \<Rightarrow> outcome" where
  "singleTapFire w =
    (case singleTapTimer (Handlers w) of
       None \<Rightarrow> Returned w
     | Some (studentId, currentStatus) \<Rightarrow>
         (let w1 = w\<lparr>Handlers := (Handlers w)\<lparr>singleTapTimer := None,
                      lastTapStudentId := None, lastTapTime := 0\<rparr>\<rparr>
          in if currentStatus = LEAVE then renderAll (setStatus studentId PRESENT w1)
             else if currentStatus = PRESENT then renderAll (setStatus studentId LEAVE w1)
             else if currentStatus = ABSENT then renderAll (setStatus studentId LEAVE w1)
             else renderAll w1))"

definition onPopoverAction :: "string \<Rightarrow> app \<Rightarrow> outcome" where
  "onPopoverAction action w =
    (case popoverStudentId (Handlers w) of
       None \<Rightarrow> Returned w
     | Some studentId \<Rightarrow>
         if studentId \<noteq> [] \<and> \<not> isLocked (Store w) then
           (let w1 = setStatus studentId action w
            in renderAll (w1\<lparr>Handlers := (Handlers w1)\<lparr>popoverStudentId := None\<rparr>\<rparr>))
         else Returned w)"

text \<open>\<^verbatim>\<open>onDateChange\<close> and \<^verbatim>\<open>onBatchChange\<close>; the argument is the value of the picker. The
  attendance fetch that \<^verbatim>\<open>onDateChange\<close> starts completes in a later event and is not
  part of the handler's own effect.\<close>

definition onDateChange :: "string \<Rightarrow> app \<Rightarrow> outcome" where
  "onDateChange v w =
    (let st = (Store w)\<lparr>currentDate := v\<rparr>
     in renderAll (w\<lparr>Store := invalidateCache (initDateBatch (currentDate st) (currentBatch st) st)\<rparr>))"

definition onBatchChange :: "string \<Rightarrow> app \<Rightarrow> outcome" where
  "onBatchChange v w =
    (let st = (Store w)\<lparr>currentBatch := v\<rparr>
     in renderAll (w\<lparr>Store := invalidateCache (initDateBatch (currentDate st) (currentBatch st) st)\<rparr>))"

text \<open>\<^verbatim>\<open>onClearToday\<close>; \<open>confirmed\<close> is the answer of the \<^verbatim>\<open>confirm\<close> dialog.\<close>

definition onClearToday :: "bool \<Rightarrow> app \<Rightarrow> outcome" where
  "onClearToday confirmed w =
    (if \<not> confirmed then Returned w
     else
       (let st = Store w;
            dateKey = currentDate st;
            st1 = st\<lparr>attendance := (attendance st)(dateKey := None),
                     lockedBatches :=
                       filter (\<lambda>k. \<not> startsWith k (dateKey @ ''|'')) (lockedBatches st)\<rparr>;
            w1 = saveState (w\<lparr>Store := st1\<rparr>);
            st2 = invalidateCache
                    (initDateBatch (currentDate (Store w1)) (currentBatch (Store w1)) (Store w1))
        in renderAll (w1\<lparr>Store := st2\<rparr>)))"

text \<open>What the remote save request came to: a response with its \<^verbatim>\<open>success\<close> flag, a
  failed script load, or the 30 s timeout.\<close>

datatype remote = Responded bool | RequestFailed | TimedOut

definition mkRecords :: "store \<Rightarrow> batch \<Rightarrow> string \<Rightarrow> student list \<Rightarrow> attendanceRecord list" where
  "mkRecords st bc timeStr vis =
    map (\<lambda>s. \<lparr>r_date = currentDate st, r_batch = batch_name bc, r_batchTime = batch_time bc,
               r_studentId = sid s, r_studentName = name s, r_appNumber = appNumber s,
               r_status = getStatus st (sid s), r_time = timeStr\<rparr>) vis"

text \<open>\<^verbatim>\<open>onConfirmSave\<close>, run to completion without another event in between; \<open>result\<close>
  is what the awaited request came to, \<open>timeStr\<close> and \<open>nowIso\<close> are the clock readings.
  Mapping a non-empty \<^verbatim>\<open>visible\<close> with an unconfigured batch throws outside the
  \<^verbatim>\<open>try\<close>; inside it the same dereference is caught and counts as a failed save.\<close>

definition onConfirmSave :: "remote \<Rightarrow> string \<Rightarrow> string \<Rightarrow> app \<Rightarrow> outcome" where
  "onConfirmSave result timeStr nowIso w =
    (case photoBase64 (Store w) of
       None \<Rightarrow> Returned w
     | Some photo \<Rightarrow>
         if photo = [] then Returned w
         else
           (let c = fst (getComputed (Store w));
                w1 = w\<lparr>Store := snd (getComputed (Store w))\<rparr>;
                bc = batchConfig (currentBatch (Store w1))
            in if visible c \<noteq> [] \<and> bc = None then Threw w1
               else
                 (let recs = (case bc of
                                None \<Rightarrow> []
                              | Some b \<Rightarrow> mkRecords (Store w1) b timeStr (visible c));
                      cloudSaved = (API_URL w1 \<noteq> [] \<and> bc \<noteq> None \<and> result = Responded True)
                  in if cloudSaved \<or> API_URL w1 = []
                     then renderAll (saveRecords recs nowIso (lockCurrentBatch None w1))
                     else renderAll (saveRecords recs nowIso w1))))"

subsection \<open>The merge view\<close>

text \<open>\<^verbatim>\<open>getVal\<close>, and the final status of one row of \<^verbatim>\<open>MergeView.open\<close> whose two cells
  are strings.\<close>

definition getVal :: "cellgroup option \<Rightarrow> string \<Rightarrow> jsval" where
  "getVal data i =
    (case data of
       None \<Rightarrow> Str DASH
     | Some (MapGroup m) \<Rightarrow> orLeave (mapGet m i)
     | Some (ObjGroup m) \<Rightarrow> orLeave (objGet m i))"

definition dashToLeave :: "string \<Rightarrow> string" where
  "dashToLeave b = (if b = DASH then ''leave'' else b)"

definition rowFinalStatus :: "string \<Rightarrow> string \<Rightarrow> string" where
  "rowFinalStatus b1 b2 =
    (if b1 \<noteq> DASH \<or> b2 \<noteq> DASH then getFinalStatus (dashToLeave b1) (dashToLeave b2)
     else DASH)"

subsection \<open>Notions used to state the properties\<close>

text \<open>The status \<^verbatim>\<open>getStatus\<close> returns once the store is pointed at a date and a batch.\<close>

definition statusAt :: "store \<Rightarrow> string \<Rightarrow> string \<Rightarrow> string \<Rightarrow> jsval" where
  "statusAt st dateKey batchKey studentId =
    getStatus (st\<lparr>currentDate := dateKey, currentBatch := batchKey\<rparr>) studentId"

text \<open>The entry a cell group holds for a student, \<open>None\<close> when the group does not exist
  or has no entry for the student.\<close>

definition entryAt :: "store \<Rightarrow> string \<Rightarrow> string \<Rightarrow> string \<Rightarrow> string option" where
  "entryAt st dateKey batchKey studentId =
    (case lookupGroup (attendance st) dateKey batchKey of
       None \<Rightarrow> None
     | Some g \<Rightarrow> groupEntries g studentId)"

text \<open>The roster map is keyed by the students' own ids, as \<^verbatim>\<open>setStudents\<close> builds it.\<close>

definition rosterKeyed :: "store \<Rightarrow> bool" where
  "rosterKeyed st = (\<forall>i s. studentMap st i = Some s \<longrightarrow> sid s = i)"

text \<open>A valid cache holds the recomputation of the state it sits in.\<close>

definition cacheConsistent :: "store \<Rightarrow> bool" where
  "cacheConsistent st = (valid (cache st) \<longrightarrow> cache st = compute st)"

text \<open>The rule of the merge as the specification words it: the marker of missing data
  counts as leave, then present wins over absent, and absent over leave.\<close>

definition precedence :: "string \<Rightarrow> nat" where
  "precedence s = (if s = ''present'' then 2 else if s = ''absent'' then 1 else 0)"

definition spec_finalStatus :: "string \<Rightarrow> string \<Rightarrow> string" where
  "spec_finalStatus b1 b2 =
    (let n1 = (if b1 = DASH then ''leave'' else b1);
         n2 = (if b2 = DASH then ''leave'' else b2)
     in if precedence n2 \<le> precedence n1 then n1 else n2)"

text \<open>A sequence of status writes and reads of the computed view; \<open>run\<close> returns, for
  every read, the view it got together with the store it was read from.\<close>

datatype op = SetStatus string string | Read

fun run :: "op list \<Rightarrow> app \<Rightarrow> (computed \<times> store) list" where
  "run [] w = []"
| "run (SetStatus i s # ops) w = run ops (setStatus i s w)"
| "run (Read # ops) w =
    (fst (getComputed (Store w)), Store w) # run ops (w\<lparr>Store := snd (getComputed (Store w))\<rparr>)"

subsection \<open>The initial state and a small roster\<close>

definition initialStore :: store where
  "initialStore =
    \<lparr>studentMap = Map.empty, studentOrder = [], attendance = Map.empty, lockedBatches = [],
     photoUrls = Map.empty, currentDate = [], currentBatch = ''batch_01'', searchQuery = [],
     photoBase64 = None,
     cache = \<lparr>valid = False, visible = [], present = [], absent = [], leave = []\<rparr>\<rparr>"

definition initialApp :: app where
  "initialApp =
    \<lparr>Store = initialStore,
     Storage = \<lparr>attendanceItem = None, recordItems = Map.empty\<rparr>,
     Handlers = \<lparr>lastTapTime = 0, lastTapStudentId = None, singleTapTimer = None,
                 popoverStudentId = None\<rparr>,
     API_URL = ''https://script.google.com/macros/s/AKfycbxdtc7wOwGPBrFDs89CDZI-3wVAN1BqYkkTNxYrQW60oU9nW0HF9UUX8Bqvu82p0bkK/exec''\<rparr>"

definition roster :: "student list" where
  "roster =
    [\<lparr>sid = ''A'', name = ''Asha'', appNumber = ''101'', active = True\<rparr>,
     \<lparr>sid = ''B'', name = ''Bina'', appNumber = ''102'', active = True\<rparr>,
     \<lparr>sid = ''C'', name = ''Chitra'', appNumber = ''103'', active = True\<rparr>]"

text \<open>The application after the roster has loaded on a chosen date, before any status
  was written and before any cell group exists.\<close>

definition loadedApp :: app where
  "loadedApp = initialApp\<lparr>Store := setStudents roster (initialStore\<lparr>currentDate := ''2024-01-15''\<rparr>)\<rparr>"

text \<open>Student A is marked present in the first batch; then the batch is locked.\<close>

definition markedApp :: app where
  "markedApp = setStatus ''A'' ''present'' loadedApp"

definition lockedApp :: app where
  "lockedApp = lockCurrentBatch None markedApp"

text \<open>The store pointed at the second batch of the same date.\<close>

definition secondBatchStore :: store where
  "secondBatchStore = (Store markedApp)\<lparr>currentBatch := ''batch_02''\<rparr>"

text \<open>A second date with a status and a lock of its own, and the first date still held.\<close>

definition twoDayApp :: app where
  "twoDayApp =
    lockCurrentBatch None
      (setStatus ''B'' ''absent''
        (lockedApp\<lparr>Store := (Store lockedApp)\<lparr>currentDate := ''2024-01-16''\<rparr>\<rparr>))"


text \<open>The application started again on the storage that the marked application left:
  \<^verbatim>\<open>loadState\<close> on the initial store, then the date is set as \<^verbatim>\<open>init\<close> does.\<close>

definition restartedApp :: app where
  "restartedApp = loadState (initialApp\<lparr>Storage := Storage markedApp\<rparr>)"

definition reloadedApp :: app where
  "reloadedApp = restartedApp\<lparr>Store := (Store restartedApp)\<lparr>currentDate := ''2024-01-15''\<rparr>\<rparr>"

text \<open>The locked application with the status popover open on student C.\<close>

definition popoverApp :: app where
  "popoverApp = lockedApp\<lparr>Handlers := (Handlers lockedApp)\<lparr>popoverStudentId := Some ''C''\<rparr>\<rparr>"

text \<open>A tap on C has armed the single-tap timer, and the batch was locked before the
  timer fired.\<close>

definition pendingTapApp :: app where
  "pendingTapApp =
    lockCurrentBatch None (state_of (onStudentClick (Some (''C'', ''leave'')) 1000 markedApp))"

section \<open>Facts about the embedding\<close>

lemmas app_defs = loadedApp_def markedApp_def lockedApp_def initialApp_def initialStore_def
  setStudents_def roster_def setStatus_def saveState_def invalidateCache_def lockCurrentBatch_def
  Let_def

lemma DASH_not_status [simp]:
  "DASH \<noteq> ''present''" "DASH \<noteq> ''absent''" "DASH \<noteq> ''leave''"
  "''present'' \<noteq> DASH" "''absent'' \<noteq> DASH" "''leave'' \<noteq> DASH"
  by (simp_all add: DASH_def)

subsection \<open>What each operation leaves alone\<close>

lemma saveState_Store [simp]: "Store (saveState w) = Store w"
  and saveState_Handlers [simp]: "Handlers (saveState w) = Handlers w"
  and saveState_API_URL [simp]: "API_URL (saveState w) = API_URL w"
  and saveState_recordItems [simp]: "recordItems (Storage (saveState w)) = recordItems (Storage w)"
  by (simp_all add: saveState_def Let_def)

lemma getStatus_cache [simp]: "getStatus (st\<lparr>cache := c\<rparr>) i = getStatus st i"
  by (simp add: getStatus_def)

lemma getBatch1PresentSet_cache [simp]:
  "getBatch1PresentSet (st\<lparr>cache := c\<rparr>) = getBatch1PresentSet st"
  by (simp add: getBatch1PresentSet_def)

lemma computeLoop_cache [simp]:
  "computeLoop (st\<lparr>cache := c\<rparr>) b1 q ids acc = computeLoop st b1 q ids acc"
proof (induction ids arbitrary: acc b1 q)
  case Nil
  show ?case by simp
next
  case (Cons i ids)
  show ?case
    by (cases "studentMap st i") (simp_all add: Cons.IH Let_def del: str_includes.simps)
qed

lemma compute_cache [simp]: "compute (st\<lparr>cache := c\<rparr>) = compute st"
  by (simp add: compute_def)

lemma getComputed_snd_fields [simp]:
  "studentMap (snd (getComputed st)) = studentMap st"
  "studentOrder (snd (getComputed st)) = studentOrder st"
  "attendance (snd (getComputed st)) = attendance st"
  "lockedBatches (snd (getComputed st)) = lockedBatches st"
  "photoUrls (snd (getComputed st)) = photoUrls st"
  "currentDate (snd (getComputed st)) = currentDate st"
  "currentBatch (snd (getComputed st)) = currentBatch st"
  "searchQuery (snd (getComputed st)) = searchQuery st"
  "photoBase64 (snd (getComputed st)) = photoBase64 st"
  by (simp_all add: getComputed_def Let_def)

lemma state_of_renderAll [simp]:
  "state_of (renderAll w) = w\<lparr>Store := snd (getComputed (Store w))\<rparr>"
  by (simp add: renderAll_def Let_def)

lemma mkRecords_cache [simp]: "mkRecords (snd (getComputed st)) bc t vis = mkRecords st bc t vis"
  by (simp add: mkRecords_def getComputed_def Let_def)

lemma lockCurrentBatch_fields [simp]:
  "attendance (Store (lockCurrentBatch None w)) = attendance (Store w)"
  "lockedBatches (Store (lockCurrentBatch None w))
     = set_add (lockKey (currentDate (Store w)) (currentBatch (Store w))) (lockedBatches (Store w))"
  "photoUrls (Store (lockCurrentBatch None w)) = photoUrls (Store w)"
  "currentDate (Store (lockCurrentBatch None w)) = currentDate (Store w)"
  "currentBatch (Store (lockCurrentBatch None w)) = currentBatch (Store w)"
  by (simp_all add: lockCurrentBatch_def Let_def)

lemma saveRecords_Store [simp]: "Store (saveRecords recs now w) = Store w"
  by (simp add: saveRecords_def Let_def)

subsection \<open>Sets in insertion order\<close>

lemma set_fold_set_add: "set (fold set_add arr ys) = set arr \<union> set ys"
  by (induction arr arbitrary: ys) (auto simp: set_add_def)

lemma set_new_Set [simp]: "set (new_Set arr) = set arr"
  by (simp add: new_Set_def set_fold_set_add)

subsection \<open>The cache\<close>

lemma getComputed_fst: "cacheConsistent st \<Longrightarrow> fst (getComputed st) = compute st"
  by (simp add: getComputed_def cacheConsistent_def Let_def)

lemma getComputed_consistent: "cacheConsistent st \<Longrightarrow> cacheConsistent (snd (getComputed st))"
  by (simp add: getComputed_def cacheConsistent_def Let_def)

lemma setStatus_consistent: "cacheConsistent (Store (setStatus i s w))"
  by (simp add: setStatus_def cacheConsistent_def invalidateCache_def Let_def)

lemma initialStore_consistent: "cacheConsistent initialStore"
  by (simp add: cacheConsistent_def initialStore_def)

lemma setStudents_consistent: "cacheConsistent (setStudents students st)"
  by (simp add: setStudents_def cacheConsistent_def invalidateCache_def)

subsection \<open>Navigation, and the operations that keep the cache consistent\<close>

lemma getStatus_initDateBatch [simp]:
  "getStatus (initDateBatch d b st) i = getStatus st i"
  by (auto simp: getStatus_def initDateBatch_def lookupGroup_def Let_def orLeave_def mapGet_def objGet_def
      split: option.splits cellgroup.splits)

lemma statusAt_initDateBatch [simp]:
  "statusAt (initDateBatch d b st) d' b' i = statusAt st d' b' i"
  by (auto simp: statusAt_def getStatus_def initDateBatch_def lookupGroup_def Let_def orLeave_def mapGet_def objGet_def
      split: option.splits cellgroup.splits)

lemma statusAt_cache [simp]: "statusAt (st\<lparr>cache := c\<rparr>) d b i = statusAt st d b i"
  by (simp add: statusAt_def getStatus_def)

lemma statusAt_getComputed [simp]: "statusAt (snd (getComputed st)) d b i = statusAt st d b i"
  by (simp add: getComputed_def Let_def)

lemma statusAt_navigation:
  "getStatus (Store (state_of (onBatchChange b (state_of (onDateChange d w))))) i
     = statusAt (Store w) d b i"
proof -
  have "getStatus st i = statusAt st (currentDate st) (currentBatch st) i" for st
    by (simp add: statusAt_def)
  then show ?thesis
    by (simp add: onBatchChange_def onDateChange_def Let_def invalidateCache_def statusAt_def
        getStatus_def getComputed_def initDateBatch_def lookupGroup_def orLeave_def mapGet_def objGet_def
        split: option.splits cellgroup.splits)
qed

lemma getBatch1PresentSet_initDateBatch [simp]:
  "getBatch1PresentSet (initDateBatch d b st) = getBatch1PresentSet st"
  by (auto simp: getBatch1PresentSet_def initDateBatch_def lookupGroup_def Let_def
      split: option.splits cellgroup.splits)

lemma computeLoop_cong:
  "studentMap st' = studentMap st \<Longrightarrow> (\<And>i. getStatus st' i = getStatus st i) \<Longrightarrow>
   computeLoop st' b1 q ids acc = computeLoop st b1 q ids acc"
proof (induction ids arbitrary: acc b1 q)
  case Nil
  show ?case by simp
next
  case (Cons i ids)
  show ?case
    by (cases "studentMap st i")
      (simp_all add: Cons.IH [OF Cons.prems] Cons.prems Let_def del: str_includes.simps)
qed

lemma compute_initDateBatch [simp]: "compute (initDateBatch d b st) = compute st"
proof -
  have fields: "studentOrder (initDateBatch d b st) = studentOrder st"
    "searchQuery (initDateBatch d b st) = searchQuery st"
    by (simp_all add: initDateBatch_def Let_def)
  have "computeLoop (initDateBatch d b st) b1 q ids acc = computeLoop st b1 q ids acc"
    for b1 q ids acc
  proof (rule computeLoop_cong)
    show "studentMap (initDateBatch d b st) = studentMap st"
      by (simp add: initDateBatch_def Let_def)
    show "getStatus (initDateBatch d b st) i = getStatus st i" for i
      by simp
  qed
  then show ?thesis
    by (simp add: compute_def fields)
qed

lemma initDateBatch_consistent:
  "cacheConsistent st \<Longrightarrow> cacheConsistent (initDateBatch d b st)"
proof -
  have "cache (initDateBatch d b st) = cache st" by (simp add: initDateBatch_def Let_def)
  then show "cacheConsistent st \<Longrightarrow> cacheConsistent (initDateBatch d b st)"
    by (simp add: cacheConsistent_def)
qed

lemma invalidateCache_consistent: "cacheConsistent (invalidateCache st)"
  by (simp add: cacheConsistent_def invalidateCache_def)

lemma renderAll_consistent:
  "cacheConsistent (Store w) \<Longrightarrow> cacheConsistent (Store (state_of (renderAll w)))"
  by (simp add: getComputed_consistent)

lemma compute_locks [simp]:
  "compute (st\<lparr>lockedBatches := l\<rparr>) = compute st"
proof -
  have "computeLoop (st\<lparr>lockedBatches := l\<rparr>) b1 q ids acc = computeLoop st b1 q ids acc"
    for b1 q ids acc
    by (rule computeLoop_cong) (simp_all add: getStatus_def)
  then show ?thesis by (simp add: compute_def getBatch1PresentSet_def)
qed

lemma lockCurrentBatch_consistent:
  "cacheConsistent (Store w) \<Longrightarrow> cacheConsistent (Store (lockCurrentBatch None w))"
  by (simp add: lockCurrentBatch_def Let_def cacheConsistent_def)

lemma onClearToday_consistent:
  "cacheConsistent (Store w) \<Longrightarrow> cacheConsistent (Store (state_of (onClearToday confirmed w)))"
  by (simp add: onClearToday_def Let_def getComputed_consistent invalidateCache_consistent)

lemma onStudentClick_consistent:
  "cacheConsistent (Store w) \<Longrightarrow> cacheConsistent (Store (state_of (onStudentClick clicked now w)))"
  by (simp add: onStudentClick_def Let_def getComputed_consistent setStatus_consistent
      split: option.splits prod.splits)

lemma singleTapFire_consistent:
  "cacheConsistent (Store w) \<Longrightarrow> cacheConsistent (Store (state_of (singleTapFire w)))"
  by (simp add: singleTapFire_def Let_def getComputed_consistent setStatus_consistent
      split: option.splits prod.splits)

lemma onPopoverAction_consistent:
  "cacheConsistent (Store w) \<Longrightarrow> cacheConsistent (Store (state_of (onPopoverAction action w)))"
  by (simp add: onPopoverAction_def Let_def getComputed_consistent setStatus_consistent
      split: option.splits)

lemma onConfirmSave_consistent:
  "cacheConsistent (Store w) \<Longrightarrow>
   cacheConsistent (Store (state_of (onConfirmSave result timeStr nowIso w)))"
  by (simp add: onConfirmSave_def Let_def getComputed_consistent lockCurrentBatch_consistent
      split: option.splits)

lemma onDateChange_consistent: "cacheConsistent (Store (state_of (onDateChange v w)))"
  by (simp add: onDateChange_def Let_def getComputed_consistent invalidateCache_consistent)

lemma onBatchChange_consistent: "cacheConsistent (Store (state_of (onBatchChange v w)))"
  by (simp add: onBatchChange_def Let_def getComputed_consistent invalidateCache_consistent)

subsection \<open>The roster\<close>

lemma fold_roster_keyed:
  "fold (\<lambda>s m. m(sid s \<mapsto> s)) students m i = Some s \<Longrightarrow>
   (\<And>j t. m j = Some t \<Longrightarrow> sid t = j) \<Longrightarrow> sid s = i"
proof (induction students arbitrary: m)
  case Nil
  then show ?case by simp
next
  case (Cons a students)
  show ?case
  proof (rule Cons.IH)
    show "fold (\<lambda>s m. m(sid s \<mapsto> s)) students (m(sid a \<mapsto> a)) i = Some s"
      using Cons.prems(1) by (simp only: fold_simps)
  next
    fix j t
    assume "(m(sid a \<mapsto> a)) j = Some t"
    then show "sid t = j"
      using Cons.prems(2) [of j t] by (cases "j = sid a") auto
  qed
qed

lemma setStudents_rosterKeyed: "rosterKeyed (setStudents students st)"
  unfolding rosterKeyed_def
proof (intro allI impI)
  fix i s
  assume "studentMap (setStudents students st) i = Some s"
  then have "fold (\<lambda>s m. m(sid s \<mapsto> s)) students Map.empty i = Some s"
    by (simp add: setStudents_def invalidateCache_def)
  then show "sid s = i"
    by (rule fold_roster_keyed) simp
qed

subsection \<open>The loop of the computed view\<close>

lemma computeLoop_excludes:
  assumes "rosterKeyed st" and "x \<in> b1"
    and "\<forall>s \<in> set (visible acc) \<union> set (present acc) \<union> set (absent acc) \<union> set (leave acc).
           sid s \<noteq> x"
  shows "\<forall>s \<in> set (visible (computeLoop st b1 q ids acc))
            \<union> set (present (computeLoop st b1 q ids acc))
            \<union> set (absent (computeLoop st b1 q ids acc))
            \<union> set (leave (computeLoop st b1 q ids acc)).
          sid s \<noteq> x"
  using assms(3)
proof (induction ids arbitrary: acc)
  case Nil
  then show ?case by simp
next
  case (Cons i ids)
  show ?case
  proof (cases "studentMap st i")
    case None
    with Cons show ?thesis by simp
  next
    case (Some s)
    have key: "sid s = i" using assms(1) Some by (simp add: rosterKeyed_def)
    have ne: "b1 \<noteq> {}" using assms(2) by auto
    show ?thesis
    proof (cases "i \<in> b1 \<or> \<not> active s
                 \<or> (q \<noteq> [] \<and> \<not> str_includes (toLowerCase (name s)) q
                     \<and> \<not> str_includes (toLowerCase (appNumber s)) q
                     \<and> \<not> str_includes (toLowerCase (sid s)) q)")
      case True
      then have "computeLoop st b1 q (i # ids) acc = computeLoop st b1 q ids acc"
        using Some ne by auto
      with Cons show ?thesis by simp
    next
      case False
      then have "i \<noteq> x" using assms(2) by auto
      with key have sx: "sid s \<noteq> x" by simp
      let ?acc1 = "acc\<lparr>visible := visible acc @ [s]\<rparr>"
      let ?acc2 = "if getStatus st i = Str ''present''
                  then ?acc1\<lparr>present := present ?acc1 @ [s]\<rparr>
                  else if getStatus st i = Str ''absent''
                  then ?acc1\<lparr>absent := absent ?acc1 @ [s]\<rparr>
                  else ?acc1\<lparr>leave := leave ?acc1 @ [s]\<rparr>"
      have step: "computeLoop st b1 q (i # ids) acc = computeLoop st b1 q ids ?acc2"
        using False Some by (auto simp add: Let_def simp del: str_includes.simps)
      have inv: "\<forall>s \<in> set (visible ?acc2) \<union> set (present ?acc2) \<union> set (absent ?acc2)
                    \<union> set (leave ?acc2). sid s \<noteq> x"
        using Cons.prems sx by auto
      from Cons.IH [OF inv] step show ?thesis by simp
    qed
  qed
qed

subsection \<open>Lock keys\<close>

lemma bar_split_unique:
  "c \<notin> set d \<Longrightarrow> c \<notin> set d' \<Longrightarrow> d @ c # r = d' @ c # r' \<Longrightarrow> d = d'"
proof (induction d arbitrary: d')
  case Nil
  then show ?case by (cases d') auto
next
  case (Cons a d)
  then show ?case by (cases d') auto
qed

lemma startsWith_lockKey_same: "startsWith (lockKey d b) (d @ ''|'')"
  by (simp add: startsWith_def lockKey_def)

lemma startsWith_lockKey_other:
  assumes "CHR ''|'' \<notin> set d" and "CHR ''|'' \<notin> set d'" and "d' \<noteq> d"
  shows "\<not> startsWith (lockKey d' b) (d @ ''|'')"
proof
  assume "startsWith (lockKey d' b) (d @ ''|'')"
  then obtain zs where "d' @ CHR ''|'' # b = d @ CHR ''|'' # zs"
    by (auto simp: startsWith_def lockKey_def prefix_def)
  from bar_split_unique [OF assms(2) assms(1) this] assms(3) show False by simp
qed

subsection \<open>The final status of a merge row\<close>

text \<open>Turning the marker into \<^verbatim>\<open>leave\<close> first changes nothing for \<^verbatim>\<open>getFinalStatus\<close>; a
  row shows the marker only when both batches lack data.\<close>

lemma rowFinalStatus_eq:
  "rowFinalStatus b1 b2 = (if b1 = DASH \<and> b2 = DASH then DASH else getFinalStatus b1 b2)"
  by (simp add: rowFinalStatus_def dashToLeave_def getFinalStatus_def)

lemma getVal_missing: "getVal None i = Str DASH"
  by (simp add: getVal_def)

subsection \<open>The example states, evaluated\<close>

lemma scenario_view:
  "map sid (visible (compute (Store (setStatus ''B'' ''absent'' markedApp)))) = [''A'', ''B'', ''C'']"
  "map sid (present (compute (Store (setStatus ''B'' ''absent'' markedApp)))) = [''A'']"
  "map sid (absent (compute (Store (setStatus ''B'' ''absent'' markedApp)))) = [''B'']"
  "map sid (leave (compute (Store (setStatus ''B'' ''absent'' markedApp)))) = [''C'']"
  by (simp_all add: app_defs compute_def getBatch1PresentSet_def getStatus_def lookupGroup_def
      orLeave_def mapGet_def objGet_def trim_def toLowerCase_def)

lemma visible_second_batch:
  "map sid (visible (fst (getComputed secondBatchStore))) = [''B'', ''C'']"
  by (simp add: secondBatchStore_def app_defs getComputed_def compute_def getBatch1PresentSet_def lookupGroup_def
      getStatus_def trim_def toLowerCase_def orLeave_def mapGet_def objGet_def)

lemma run_views:
  "map (\<lambda>(c, st). map sid (present c)) (run [Read, SetStatus ''A'' ''present'', Read, Read] loadedApp)
    = [[], [''A''], [''A'']]"
  by (simp add: app_defs getComputed_def compute_def getBatch1PresentSet_def lookupGroup_def
      getStatus_def trim_def toLowerCase_def orLeave_def mapGet_def objGet_def)

section \<open>The claims\<close>

subsection \<open>C1: the lock and status writes\<close>

text \<open>
  C1 as stated does not hold of \<^verbatim>\<open>Store.setStatus\<close>: the method never consults the lock
  set. In the locked example, student C reads \<^verbatim>\<open>leave\<close> before the call and
  \<^verbatim>\<open>present\<close> after it.
\<close>

theorem store_setStatus_ignores_lock:
  "isLocked (Store lockedApp)
   \<and> getStatus (Store lockedApp) ''C'' = Str ''leave''
   \<and> getStatus (Store (setStatus ''C'' ''present'' lockedApp)) ''C'' = Str ''present''"
  by (simp add: app_defs isLocked_def set_has_def set_add_def lockKey_def lookupGroup_def
      getStatus_def orLeave_def mapGet_def objGet_def)

text \<open>
  The guard of \<^verbatim>\<open>onStudentClick\<close> is tested when the card is clicked. The deferred
  single tap does not test it again: a tap armed before the lock arrives is still
  written when its timer fires.
\<close>

lemma singleTapFire_after_lock:
  "isLocked (Store pendingTapApp)
   \<and> getStatus (Store pendingTapApp) ''C'' = Str ''leave''
   \<and> getStatus (Store (state_of (singleTapFire pendingTapApp))) ''C'' = Str ''present''"
  by (simp add: pendingTapApp_def onStudentClick_def singleTapFire_def app_defs isLocked_def
      set_has_def set_add_def lockKey_def lookupGroup_def getStatus_def orLeave_def mapGet_def objGet_def
      getComputed_def)

text \<open>
  C1 (amended): the lock is enforced by the handlers that write statuses. Once
  \<^verbatim>\<open>isLocked()\<close> is true for the current date and batch, a click on a student card
  (\<^verbatim>\<open>onStudentClick\<close>) and a popover action (\<^verbatim>\<open>onPopoverAction\<close>) return without calling
  \<^verbatim>\<open>setStatus\<close>: the whole application state, ledger and local storage included, is the
  same before and after.
\<close>

theorem lock_guard_in_handlers:
  "isLocked (Store w) \<Longrightarrow>
     onStudentClick clicked now w = Returned w \<and> onPopoverAction action w = Returned w"
  by (simp add: onStudentClick_def onPopoverAction_def split: option.splits prod.splits)

theorem lock_guard_in_handlers_witness:
  "isLocked (Store lockedApp)
   \<and> onStudentClick (Some (''C'', ''leave'')) 1000 lockedApp = Returned lockedApp
   \<and> onPopoverAction ''present'' lockedApp = Returned lockedApp
   \<and> isLocked (Store popoverApp)
   \<and> popoverStudentId (Handlers popoverApp) = Some ''C''
   \<and> onPopoverAction ''present'' popoverApp = Returned popoverApp"
  using lock_guard_in_handlers [of lockedApp "Some (''C'', ''leave'')" 1000 "''present''"]
    lock_guard_in_handlers [of popoverApp "Some (''C'', ''leave'')" 1000 "''present''"]
  by (simp add: popoverApp_def app_defs isLocked_def set_has_def set_add_def lockKey_def)

subsection \<open>C2: precedence of the merge\<close>

text \<open>
  C2: \<^verbatim>\<open>getFinalStatus\<close> gives \<^verbatim>\<open>present\<close> for (present, absent), \<^verbatim>\<open>absent\<close> for
  (absent, leave), \<^verbatim>\<open>leave\<close> for (leave, leave) and \<^verbatim>\<open>leave\<close> for two missing-data
  markers; and on every pair drawn from present, absent, leave and the marker it
  agrees with the rule of the specification: the marker counts as leave, then present
  wins over absent, and absent over leave.
\<close>

theorem merge_precedence:
  "getFinalStatus ''present'' ''absent'' = ''present''
   \<and> getFinalStatus ''absent'' ''leave'' = ''absent''
   \<and> getFinalStatus ''leave'' ''leave'' = ''leave''
   \<and> getFinalStatus DASH DASH = ''leave''
   \<and> (\<forall>b1 \<in> {''present'', ''absent'', ''leave'', DASH}.
        \<forall>b2 \<in> {''present'', ''absent'', ''leave'', DASH}.
          getFinalStatus b1 b2 = spec_finalStatus b1 b2)"
  by (simp add: getFinalStatus_def spec_finalStatus_def precedence_def)

theorem merge_precedence_witness:
  "DASH \<in> {''present'', ''absent'', ''leave'', DASH}
   \<and> ''absent'' \<in> {''present'', ''absent'', ''leave'', DASH}
   \<and> getFinalStatus DASH ''absent'' = spec_finalStatus DASH ''absent''
   \<and> spec_finalStatus DASH ''absent'' = ''absent''"
  using merge_precedence by (simp add: spec_finalStatus_def precedence_def)

subsection \<open>C3: cross-batch exclusion\<close>

text \<open>
  C3: when the store is pointed at \<^verbatim>\<open>batch_02\<close> and the cell group of \<^verbatim>\<open>batch_01\<close> for the
  current date holds \<^verbatim>\<open>present\<close> for student \<open>x\<close>, no student with id \<open>x\<close> occurs in
  \<^verbatim>\<open>visible\<close>, \<^verbatim>\<open>present\<close>, \<^verbatim>\<open>absent\<close> or \<^verbatim>\<open>leave\<close> of the computed view, whatever the
  roster, the search query and the statuses of the second batch are. The roster map is
  keyed by the students' ids and the cache, if valid, is the one of this state.
\<close>

theorem cross_batch_exclusion:
  assumes "rosterKeyed st" and "cacheConsistent st"
    and "currentBatch st = ''batch_02''"
    and "entryAt st (currentDate st) ''batch_01'' x = Some ''present''"
  shows "\<forall>s \<in> set (visible (fst (getComputed st))) \<union> set (present (fst (getComputed st)))
            \<union> set (absent (fst (getComputed st))) \<union> set (leave (fst (getComputed st))).
          sid s \<noteq> x"
proof -
  have "x \<in> getBatch1PresentSet st"
    using assms(3,4)
    by (auto simp: getBatch1PresentSet_def entryAt_def groupEntries_def
        split: option.splits cellgroup.splits)
  from computeLoop_excludes [OF assms(1) this,
      of "\<lparr>valid = True, visible = [], present = [], absent = [], leave = []\<rparr>"]
  show ?thesis using assms(2) by (simp add: getComputed_fst compute_def)
qed

theorem cross_batch_exclusion_witness:
  "rosterKeyed secondBatchStore \<and> cacheConsistent secondBatchStore
   \<and> currentBatch secondBatchStore = ''batch_02''
   \<and> entryAt secondBatchStore (currentDate secondBatchStore) ''batch_01'' ''A'' = Some ''present''
   \<and> ''A'' \<notin> sid ` (set (visible (fst (getComputed secondBatchStore)))
            \<union> set (present (fst (getComputed secondBatchStore)))
            \<union> set (absent (fst (getComputed secondBatchStore)))
            \<union> set (leave (fst (getComputed secondBatchStore))))"
proof -
  have "studentMap secondBatchStore
      = studentMap (setStudents roster (initialStore\<lparr>currentDate := ''2024-01-15''\<rparr>))"
    by (simp add: secondBatchStore_def app_defs)
  then have 1: "rosterKeyed secondBatchStore"
    using setStudents_rosterKeyed by (simp add: rosterKeyed_def)
  have 2: "cacheConsistent secondBatchStore"
    by (simp add: secondBatchStore_def markedApp_def setStatus_def invalidateCache_def Let_def
        cacheConsistent_def)
  have 3: "currentBatch secondBatchStore = ''batch_02''"
    by (simp add: secondBatchStore_def)
  have 4: "entryAt secondBatchStore (currentDate secondBatchStore) ''batch_01'' ''A''
      = Some ''present''"
    by (simp add: secondBatchStore_def app_defs entryAt_def lookupGroup_def groupEntries_def)
  from cross_batch_exclusion [OF 1 2 3 4] 1 2 3 4 show ?thesis by auto
qed

subsection \<open>C4: a status that was never written reads as leave\<close>

text \<open>
  Where the default holds: \<^verbatim>\<open>getStatus\<close> returns \<^verbatim>\<open>leave\<close> for every student id when the
  current date and batch have no cell group, when the cell group is a \<^verbatim>\<open>Map\<close> without an
  entry for the student, and when it is a plain object without an own entry for the
  student, unless the id is the name of an inherited member.
\<close>

lemma default_to_leave_no_group:
  "lookupGroup (attendance st) (currentDate st) (currentBatch st) = None \<Longrightarrow>
   getStatus st studentId = Str ''leave''"
  by (simp add: getStatus_def)

lemma default_to_leave_Map:
  "lookupGroup (attendance st) (currentDate st) (currentBatch st) = Some (MapGroup m) \<Longrightarrow>
   m studentId = None \<Longrightarrow> getStatus st studentId = Str ''leave''"
  by (simp add: getStatus_def orLeave_def mapGet_def)

lemma default_to_leave_object:
  "lookupGroup (attendance st) (currentDate st) (currentBatch st) = Some (ObjGroup m) \<Longrightarrow>
   m studentId = None \<Longrightarrow> studentId \<notin> set objectPrototypeKeys \<Longrightarrow>
   getStatus st studentId = Str ''leave''"
  by (simp add: getStatus_def orLeave_def objGet_def)

lemma getStatus_inherited:
  "lookupGroup (attendance st) (currentDate st) (currentBatch st) = Some (ObjGroup m) \<Longrightarrow>
   m studentId = None \<Longrightarrow> studentId \<in> set objectPrototypeKeys \<Longrightarrow>
   getStatus st studentId = Inherited studentId"
  by (simp add: getStatus_def orLeave_def objGet_def)

text \<open>
  C4 fails on the code for a cell group that is a plain object, as every cell group is
  after \<^verbatim>\<open>loadState\<close>: the lookup \<^verbatim>\<open>batchData[studentId]\<close> has no own-property test. In the
  application started again on the stored state, the cell group of the current date and
  batch exists and holds an entry for A only; for the student id \<^verbatim>\<open>constructor\<close>, which
  has no entry, \<^verbatim>\<open>getStatus\<close> returns the inherited member instead of \<^verbatim>\<open>leave\<close>. On the
  \<^verbatim>\<open>Map\<close> that the group was before it was stored, the same call returns \<^verbatim>\<open>leave\<close>.
\<close>

theorem getStatus_constructor_after_reload:
  "lookupGroup (attendance (Store reloadedApp)) (currentDate (Store reloadedApp))
     (currentBatch (Store reloadedApp)) = Some (ObjGroup (Map.empty(''A'' \<mapsto> ''present'')))
   \<and> entryAt (Store reloadedApp) (currentDate (Store reloadedApp))
       (currentBatch (Store reloadedApp)) ''constructor'' = None
   \<and> getStatus (Store reloadedApp) ''constructor'' = Inherited ''constructor''
   \<and> getStatus (Store reloadedApp) ''constructor'' \<noteq> Str ''leave''
   \<and> getStatus (Store markedApp) ''constructor'' = Str ''leave''"
  by (simp add: reloadedApp_def restartedApp_def loadState_def app_defs lookupGroup_def
      entryAt_def groupEntries_def getStatus_def orLeave_def mapGet_def objGet_def
      objectPrototypeKeys_def)

subsection \<open>C5: a status write to a missing cell group\<close>

text \<open>
  C5 as stated does not hold: \<^verbatim>\<open>setStatus\<close> creates a missing cell group as an empty
  \<^verbatim>\<open>Map\<close>, not the way \<^verbatim>\<open>initDateBatch\<close> does. With the roster A, B, C loaded and no cell
  group yet, writing A leaves B without an entry, whereas \<^verbatim>\<open>initDateBatch\<close> followed by
  the same write enters B with \<^verbatim>\<open>leave\<close>; the two resulting states differ.
\<close>

theorem setStatus_initializes_counterexample:
  "lookupGroup (attendance (Store loadedApp)) (currentDate (Store loadedApp))
     (currentBatch (Store loadedApp)) = None
   \<and> studentMap (Store loadedApp) ''B'' \<noteq> None
   \<and> entryAt (Store (setStatus ''A'' ''present'' loadedApp)) ''2024-01-15'' ''batch_01'' ''B'' = None
   \<and> entryAt (Store (setStatus ''A'' ''present''
         (loadedApp\<lparr>Store := initDateBatch ''2024-01-15'' ''batch_01'' (Store loadedApp)\<rparr>)))
         ''2024-01-15'' ''batch_01'' ''B'' = Some ''leave''
   \<and> setStatus ''A'' ''present'' loadedApp
       \<noteq> setStatus ''A'' ''present''
           (loadedApp\<lparr>Store := initDateBatch ''2024-01-15'' ''batch_01'' (Store loadedApp)\<rparr>)"
proof -
  have 1: "lookupGroup (attendance (Store loadedApp)) (currentDate (Store loadedApp))
     (currentBatch (Store loadedApp)) = None"
    by (simp add: app_defs lookupGroup_def)
  have 2: "studentMap (Store loadedApp) ''B'' \<noteq> None"
    by (simp add: app_defs)
  have 3: "entryAt (Store (setStatus ''A'' ''present'' loadedApp)) ''2024-01-15'' ''batch_01'' ''B''
      = None"
    by (simp add: app_defs lookupGroup_def entryAt_def groupEntries_def)
  have 4: "entryAt (Store (setStatus ''A'' ''present''
         (loadedApp\<lparr>Store := initDateBatch ''2024-01-15'' ''batch_01'' (Store loadedApp)\<rparr>)))
         ''2024-01-15'' ''batch_01'' ''B'' = Some ''leave''"
    by (simp add: app_defs initDateBatch_def lookupGroup_def entryAt_def groupEntries_def)
  have 5: "setStatus ''A'' ''present'' loadedApp
       \<noteq> setStatus ''A'' ''present''
           (loadedApp\<lparr>Store := initDateBatch ''2024-01-15'' ''batch_01'' (Store loadedApp)\<rparr>)"
  proof
    assume "setStatus ''A'' ''present'' loadedApp
       = setStatus ''A'' ''present''
           (loadedApp\<lparr>Store := initDateBatch ''2024-01-15'' ''batch_01'' (Store loadedApp)\<rparr>)"
    with 3 4 show False by simp
  qed
  from 1 2 3 4 5 show ?thesis by blast
qed

text \<open>
  C5 (amended): when the current date and batch have no cell group, \<^verbatim>\<open>setStatus\<close>
  creates the group with the written entry alone, without entering the other roster
  students. What \<^verbatim>\<open>getStatus\<close> reads afterwards, for every date, batch and student, is
  the same as after \<^verbatim>\<open>initDateBatch\<close> followed by the same \<^verbatim>\<open>setStatus\<close>, since a missing
  entry reads as \<^verbatim>\<open>leave\<close>.
\<close>

theorem setStatus_missing_group:
  assumes "lookupGroup (attendance (Store w)) (currentDate (Store w)) (currentBatch (Store w)) = None"
  shows "lookupGroup (attendance (Store (setStatus i s w))) (currentDate (Store w))
           (currentBatch (Store w)) = Some (MapGroup (Map.empty(i \<mapsto> s)))
    \<and> statusAt (Store (setStatus i s w)) d b j
       = statusAt (Store (setStatus i s
            (w\<lparr>Store := initDateBatch (currentDate (Store w)) (currentBatch (Store w)) (Store w)\<rparr>)))
           d b j"
  using assms
  by (auto simp: setStatus_def initDateBatch_def invalidateCache_def Let_def lookupGroup_def
      statusAt_def getStatus_def orLeave_def mapGet_def objGet_def split: option.splits)

theorem setStatus_missing_group_witness:
  "lookupGroup (attendance (Store loadedApp)) (currentDate (Store loadedApp))
     (currentBatch (Store loadedApp)) = None
   \<and> lookupGroup (attendance (Store (setStatus ''A'' ''present'' loadedApp)))
       (currentDate (Store loadedApp)) (currentBatch (Store loadedApp))
       = Some (MapGroup (Map.empty(''A'' \<mapsto> ''present'')))
   \<and> statusAt (Store (setStatus ''A'' ''present'' loadedApp)) ''2024-01-15'' ''batch_01'' ''B''
       = statusAt (Store (setStatus ''A'' ''present''
           (loadedApp\<lparr>Store := initDateBatch (currentDate (Store loadedApp))
              (currentBatch (Store loadedApp)) (Store loadedApp)\<rparr>))) ''2024-01-15'' ''batch_01'' ''B''"
proof -
  have h: "lookupGroup (attendance (Store loadedApp)) (currentDate (Store loadedApp))
     (currentBatch (Store loadedApp)) = None"
    by (simp add: app_defs lookupGroup_def)
  from setStatus_missing_group [OF h, of "''A''" "''present''" "''2024-01-15''" "''batch_01''" "''B''"] h
  show ?thesis by simp
qed

subsection \<open>C6: the cached view and the recomputation\<close>

text \<open>
  C6: along every sequence of \<^verbatim>\<open>setStatus\<close> calls and reads of the computed view, started
  in a state whose cache, if valid, is the one of that state (as it is initially and
  after every roster load), each read returns exactly the view recomputed from scratch
  on the store it reads.
\<close>

theorem cache_consistency:
  "cacheConsistent (Store w) \<Longrightarrow> \<forall>(c, st) \<in> set (run ops w). c = compute st"
proof (induction ops arbitrary: w)
  case Nil
  show ?case by simp
next
  case (Cons a ops)
  show ?case
  proof (cases a)
    case (SetStatus i s)
    have "cacheConsistent (Store (setStatus i s w))" by (rule setStatus_consistent)
    from Cons.IH [OF this] SetStatus show ?thesis by simp
  next
    case Read
    have "cacheConsistent (Store (w\<lparr>Store := snd (getComputed (Store w))\<rparr>))"
      using Cons.prems by (simp add: getComputed_consistent)
    from Cons.IH [OF this] Read Cons.prems show ?thesis
      by (simp add: getComputed_fst)
  qed
qed

theorem cache_consistency_witness:
  "cacheConsistent (Store loadedApp)
   \<and> length (run [Read, SetStatus ''A'' ''present'', Read, Read] loadedApp) = 3
   \<and> list_all (\<lambda>(c, st). c = compute st)
         (run [Read, SetStatus ''A'' ''present'', Read, Read] loadedApp)"
proof -
  have h: "cacheConsistent (Store loadedApp)"
    by (simp add: loadedApp_def setStudents_consistent)
  from cache_consistency [OF h, of "[Read, SetStatus ''A'' ''present'', Read, Read]"] h
  show ?thesis by (simp add: list_all_iff)
qed

subsection \<open>C7: clearing the current date\<close>

text \<open>
  C7: after a confirmed \<^verbatim>\<open>onClearToday\<close>, every batch and student of the cleared date
  reads \<^verbatim>\<open>leave\<close> and no batch of that date is locked (the handler then recreates the
  cell group of the current batch, with \<^verbatim>\<open>leave\<close> for the roster); for every other date
  all statuses and lock memberships are as before. Date keys are ISO dates, which
  never contain the separator \<^verbatim>\<open>|\<close> of the lock keys.
\<close>

theorem clear_frame:
  assumes "CHR ''|'' \<notin> set (currentDate (Store w))" and "CHR ''|'' \<notin> set d'"
    and "d' \<noteq> currentDate (Store w)"
  shows "statusAt (Store (state_of (onClearToday True w))) (currentDate (Store w)) b i
      = Str ''leave''
    \<and> \<not> isDateBatchLocked (Store (state_of (onClearToday True w))) (currentDate (Store w)) b
    \<and> statusAt (Store (state_of (onClearToday True w))) d' b i = statusAt (Store w) d' b i
    \<and> isDateBatchLocked (Store (state_of (onClearToday True w))) d' b
        = isDateBatchLocked (Store w) d' b"
proof -
  let ?S = "Store (state_of (onClearToday True w))"
  let ?d = "currentDate (Store w)"
  have att: "attendance ?S =
      (attendance (Store w))(?d \<mapsto>
        Map.empty(currentBatch (Store w) \<mapsto>
          MapGroup (\<lambda>i. case studentMap (Store w) i of None \<Rightarrow> None | Some s \<Rightarrow> Some ''leave'')))"
    by (simp add: onClearToday_def Let_def invalidateCache_def initDateBatch_def)
  have locks: "lockedBatches ?S =
      filter (\<lambda>k. \<not> startsWith k (?d @ ''|'')) (lockedBatches (Store w))"
    by (simp add: onClearToday_def Let_def invalidateCache_def initDateBatch_def)
  have 1: "statusAt ?S ?d b i = Str ''leave''"
    by (simp add: statusAt_def getStatus_def lookupGroup_def att orLeave_def mapGet_def objGet_def split: option.splits)
  have 2: "\<not> isDateBatchLocked ?S ?d b"
    by (simp add: isDateBatchLocked_def set_has_def locks startsWith_lockKey_same)
  have 3: "statusAt ?S d' b i = statusAt (Store w) d' b i"
    using assms(3) by (simp add: statusAt_def getStatus_def lookupGroup_def att)
  have 4: "isDateBatchLocked ?S d' b = isDateBatchLocked (Store w) d' b"
    using startsWith_lockKey_other [OF assms]
    by (simp add: isDateBatchLocked_def set_has_def locks)
  from 1 2 3 4 show ?thesis by blast
qed

lemma twoDayApp_before:
  "currentDate (Store twoDayApp) = ''2024-01-16''"
  "statusAt (Store twoDayApp) ''2024-01-16'' ''batch_01'' ''B'' = Str ''absent''"
  "isDateBatchLocked (Store twoDayApp) ''2024-01-16'' ''batch_01''"
  "statusAt (Store twoDayApp) ''2024-01-15'' ''batch_01'' ''A'' = Str ''present''"
  "isDateBatchLocked (Store twoDayApp) ''2024-01-15'' ''batch_01''"
  by (simp_all add: twoDayApp_def app_defs statusAt_def getStatus_def lookupGroup_def orLeave_def mapGet_def objGet_def
      isDateBatchLocked_def set_has_def set_add_def lockKey_def)

theorem clear_frame_witness:
  "CHR ''|'' \<notin> set (currentDate (Store twoDayApp)) \<and> CHR ''|'' \<notin> set ''2024-01-15''
   \<and> ''2024-01-15'' \<noteq> currentDate (Store twoDayApp)
   \<and> statusAt (Store (state_of (onClearToday True twoDayApp))) ''2024-01-16'' ''batch_01'' ''B''
       = Str ''leave''
   \<and> \<not> isDateBatchLocked (Store (state_of (onClearToday True twoDayApp))) ''2024-01-16'' ''batch_01''
   \<and> statusAt (Store (state_of (onClearToday True twoDayApp))) ''2024-01-15'' ''batch_01'' ''A''
       = Str ''present''
   \<and> isDateBatchLocked (Store (state_of (onClearToday True twoDayApp))) ''2024-01-15'' ''batch_01''"
proof -
  have h1: "CHR ''|'' \<notin> set (currentDate (Store twoDayApp))"
    and h2: "CHR ''|'' \<notin> set ''2024-01-15''"
    and h3: "''2024-01-15'' \<noteq> currentDate (Store twoDayApp)"
    by (simp_all add: twoDayApp_before)
  from clear_frame [OF h1 h2 h3, of "''batch_01''" "''B''"]
    clear_frame [OF h1 h2 h3, of "''batch_01''" "''A''"] h1 h2 h3
  show ?thesis by (simp add: twoDayApp_before)
qed

subsection \<open>C8: a failed push does not lock\<close>




subsection \<open>C9: saving and loading the state\<close>

text \<open>
  What the round trip keeps: after \<^verbatim>\<open>saveState\<close>, a \<^verbatim>\<open>loadState\<close> that reads the stored
  item, in the same application or in a freshly started one, restores the same lock
  membership for every date and batch and the same map of photo URLs; \<^verbatim>\<open>getStatus\<close> reads
  the same status for every date and batch and for every student id that has an entry in
  the cell group or is not the name of an inherited member.
\<close>

lemma round_trip_locks_and_photos:
  "isDateBatchLocked (Store (loadState (w0\<lparr>Storage := Storage (saveState w)\<rparr>))) dateKey batchKey
     = isDateBatchLocked (Store w) dateKey batchKey
   \<and> photoUrls (Store (loadState (w0\<lparr>Storage := Storage (saveState w)\<rparr>))) = photoUrls (Store w)"
  by (simp add: loadState_def saveState_def Let_def isDateBatchLocked_def set_has_def)

lemma round_trip_status:
  "studentId \<notin> set objectPrototypeKeys \<or> entryAt (Store w) dateKey batchKey studentId \<noteq> None \<Longrightarrow>
   statusAt (Store (loadState (w0\<lparr>Storage := Storage (saveState w)\<rparr>))) dateKey batchKey studentId
     = statusAt (Store w) dateKey batchKey studentId"
  by (auto simp: loadState_def saveState_def Let_def statusAt_def getStatus_def lookupGroup_def
      entryAt_def groupEntries_def orLeave_def mapGet_def objGet_def
      split: option.splits cellgroup.splits)

text \<open>
  C9 fails on the code for the ids that name an inherited member: \<^verbatim>\<open>saveState\<close> turns a
  \<^verbatim>\<open>Map\<close> cell group into a plain object and \<^verbatim>\<open>loadState\<close> keeps it one. Before saving, the
  marked application reads \<^verbatim>\<open>leave\<close> for the student id \<^verbatim>\<open>constructor\<close> on the first
  batch of the date; after saving and loading into a freshly started application the
  same read returns the inherited member.
\<close>

theorem round_trip_changes_constructor:
  "statusAt (Store markedApp) ''2024-01-15'' ''batch_01'' ''constructor'' = Str ''leave''
   \<and> statusAt (Store (loadState (initialApp\<lparr>Storage := Storage (saveState markedApp)\<rparr>)))
        ''2024-01-15'' ''batch_01'' ''constructor'' = Inherited ''constructor''
   \<and> statusAt (Store (loadState (initialApp\<lparr>Storage := Storage (saveState markedApp)\<rparr>)))
        ''2024-01-15'' ''batch_01'' ''constructor''
       \<noteq> statusAt (Store markedApp) ''2024-01-15'' ''batch_01'' ''constructor''"
  by (simp add: loadState_def app_defs statusAt_def lookupGroup_def getStatus_def orLeave_def
      mapGet_def objGet_def objectPrototypeKeys_def)

subsection \<open>C10: clearing keeps the photo proofs\<close>

text \<open>
  C10: \<^verbatim>\<open>onClearToday\<close>, confirmed or not, leaves the map of photo URLs as it was, for
  the keys of the cleared date as for all others.
\<close>

theorem clear_keeps_photo_urls:
  "photoUrls (Store (state_of (onClearToday confirmed w))) = photoUrls (Store w)"
  by (simp add: onClearToday_def saveState_def invalidateCache_def initDateBatch_def Let_def)

end
